theory Spec2Isabelle
  imports Complex_Main "HOL-Library.Multiset" "HOL-Library.Log_Nat" "HOL-Library.Monad_Syntax"
begin

section \<open>JavaScript values of the request\<close>

text \<open>
  The handlers of \<^verbatim>\<open>src/server.js\<close> read their inputs from \<^verbatim>\<open>req.body\<close>,
  \<^verbatim>\<open>req.params\<close> and \<^verbatim>\<open>req.query\<close>. A body field is a JSON scalar or absent; a
  query field is a string or absent; a path parameter is an identifier.
  A JavaScript number is a double: \<open>NaN\<close>, an infinity, or a finite value, kept here
  as the rational it denotes (the two zeros are one value, which nothing below tells
  apart). A string is a sequence of code units; the model covers the code units
  below 256.
\<close>

datatype jsnum = NaN | Fin rat | PInf | NInf

datatype jsval = JUndefined | JNull | JBool bool | JNum jsnum | JStr string

text \<open>\<^verbatim>\<open>!x\<close> is false exactly on the truthy values.\<close>

fun truthy :: "jsval \<Rightarrow> bool" where
  "truthy JUndefined = False"
| "truthy JNull = False"
| "truthy (JBool b) = b"
| "truthy (JNum NaN) = False"
| "truthy (JNum (Fin q)) = (q \<noteq> 0)"
| "truthy (JNum PInf) = True"
| "truthy (JNum NInf) = True"
| "truthy (JStr s) = (s \<noteq> [])"

text \<open>
  \<^verbatim>\<open>String.prototype.trim\<close> removes white space and line terminators at both ends:
  TAB, LF, VT, FF, CR, SP and NBSP among the code units below 256.
\<close>

definition is_ws :: "char \<Rightarrow> bool" where
  "is_ws c \<longleftrightarrow> c = CHR 0x09 \<or> c = CHR 0x0A \<or> c = CHR 0x0B \<or> c = CHR 0x0C
     \<or> c = CHR 0x0D \<or> c = CHR 0x20 \<or> c = CHR 0xA0"

definition trimStart :: "string \<Rightarrow> string" where
  "trimStart s = dropWhile is_ws s"

definition trim :: "string \<Rightarrow> string" where
  "trim s = rev (dropWhile is_ws (rev (dropWhile is_ws s)))"


section \<open>Numbers: rounding to a double, \<^verbatim>\<open>Number\<close> and \<^verbatim>\<open>parseInt\<close>\<close>

definition is_digit :: "char \<Rightarrow> bool" where
  "is_digit c \<longleftrightarrow> 48 \<le> (of_char c :: int) \<and> (of_char c :: int) \<le> 57"

definition digit_val :: "char \<Rightarrow> int" where
  "digit_val c = of_char c - 48"

definition digits_val :: "string \<Rightarrow> int" where
  "digits_val s = foldl (\<lambda>n c. 10 * n + digit_val c) 0 s"

definition pow2 :: "int \<Rightarrow> rat" where
  "pow2 e = (if 0 \<le> e then of_int (2 ^ nat e) else 1 / of_int (2 ^ nat (- e)))"

definition pow10 :: "int \<Rightarrow> rat" where
  "pow10 e = (if 0 \<le> e then of_int (10 ^ nat e) else 1 / of_int (10 ^ nat (- e)))"

text \<open>Round to the nearest integer, a tie to the even one.\<close>

definition round_half_even :: "rat \<Rightarrow> int" where
  "round_half_even q =
     (let f = \<lfloor>q\<rfloor>; r = q - of_int f
      in if r < 1 / 2 then f else if 1 / 2 < r then f + 1 else if even f then f else f + 1)"

text \<open>For \<open>0 < q\<close>, the exponent \<open>e\<close> with \<open>2 ^ e \<le> q < 2 ^ (e + 1)\<close>.\<close>

definition ilog2 :: "rat \<Rightarrow> int" where
  "ilog2 q =
     (let k = bitlen (fst (quotient_of q)) - bitlen (snd (quotient_of q))
      in if pow2 k \<le> q then k else k - 1)"

text \<open>
  The Number value for a mathematical value: the nearest double (53 significant bits,
  least exponent \<open>-1074\<close>, a tie to the even significand), an infinity from
  \<open>2 ^ 1024\<close> on.
\<close>

definition round_double :: "rat \<Rightarrow> jsnum" where
  "round_double q =
     (if q = 0 then Fin 0
      else let a = \<bar>q\<bar>;
               p = max (ilog2 a - 52) (- 1074);
               v = of_int (round_half_even (a / pow2 p)) * pow2 p
           in if pow2 1024 \<le> v then (if 0 < q then PInf else NInf)
              else Fin (if 0 < q then v else - v))"

fun jsnum_neg :: "jsnum \<Rightarrow> jsnum" where
  "jsnum_neg NaN = NaN"
| "jsnum_neg (Fin q) = Fin (- q)"
| "jsnum_neg PInf = NInf"
| "jsnum_neg NInf = PInf"

text \<open>
  \<open>StringToNumber\<close>: the grammar \<open>StringNumericLiteral\<close> of ECMAScript. An optional
  exponent part \<^verbatim>\<open>e\<close>/\<^verbatim>\<open>E\<close>, an optional sign and at least one digit:
\<close>

definition ExponentPart_opt :: "string \<Rightarrow> int option" where
  "ExponentPart_opt s =
     (case s of
        [] \<Rightarrow> Some 0
      | c # r \<Rightarrow>
          if c = CHR ''e'' \<or> c = CHR ''E'' then
            (let (neg, ds) =
                   (case r of
                      [] \<Rightarrow> (False, [])
                    | d # r' \<Rightarrow> if d = CHR ''-'' then (True, r')
                               else if d = CHR ''+'' then (False, r') else (False, r))
             in if ds \<noteq> [] \<and> list_all is_digit ds
                then Some (if neg then - digits_val ds else digits_val ds)
                else None)
          else None)"

definition StrUnsignedDecimalLiteral :: "string \<Rightarrow> jsnum option" where
  "StrUnsignedDecimalLiteral s =
     (if s = ''Infinity'' then Some PInf
      else let ip = takeWhile is_digit s;
               r1 = dropWhile is_digit s;
               (fp, r2) =
                 (case r1 of
                    [] \<Rightarrow> ([], [])
                  | c # r \<Rightarrow> if c = CHR ''.'' then (takeWhile is_digit r, dropWhile is_digit r)
                             else ([], r1))
           in if ip = [] \<and> fp = [] then None
              else (case ExponentPart_opt r2 of
                      None \<Rightarrow> None
                    | Some e \<Rightarrow>
                        Some (round_double
                          (of_int (digits_val (ip @ fp)) * pow10 (e - int (length fp))))))"

definition StrDecimalLiteral :: "string \<Rightarrow> jsnum option" where
  "StrDecimalLiteral s =
     (case s of
        [] \<Rightarrow> None
      | c # r \<Rightarrow> if c = CHR ''+'' then StrUnsignedDecimalLiteral r
                 else if c = CHR ''-'' then map_option jsnum_neg (StrUnsignedDecimalLiteral r)
                 else StrUnsignedDecimalLiteral s)"

definition radix_digit :: "char \<Rightarrow> int" where
  "radix_digit c =
     (let n = (of_char c :: int)
      in if 48 \<le> n \<and> n \<le> 57 then n - 48
         else if 97 \<le> n \<and> n \<le> 102 then n - 87
         else if 65 \<le> n \<and> n \<le> 70 then n - 55
         else 36)"

definition NonDecimalIntegerLiteral :: "string \<Rightarrow> jsnum option" where
  "NonDecimalIntegerLiteral s =
     (case s of
        z # p # ds \<Rightarrow>
          (let base = (if p = CHR ''x'' \<or> p = CHR ''X'' then 16
                       else if p = CHR ''o'' \<or> p = CHR ''O'' then 8
                       else if p = CHR ''b'' \<or> p = CHR ''B'' then 2 else (0::int))
           in if z = CHR ''0'' \<and> base \<noteq> 0 \<and> ds \<noteq> [] \<and> list_all (\<lambda>c. radix_digit c < base) ds
              then Some (round_double (of_int (foldl (\<lambda>n c. base * n + radix_digit c) 0 ds)))
              else None)
      | _ \<Rightarrow> None)"

definition StringToNumber :: "string \<Rightarrow> jsnum" where
  "StringToNumber s =
     (let t = trim s
      in if t = [] then Fin 0
         else (case StrDecimalLiteral t of
                 Some n \<Rightarrow> n
               | None \<Rightarrow> (case NonDecimalIntegerLiteral t of Some n \<Rightarrow> n | None \<Rightarrow> NaN)))"

text \<open>\<^verbatim>\<open>Number(v)\<close>, that is \<open>ToNumber\<close>.\<close>

fun js_Number :: "jsval \<Rightarrow> jsnum" where
  "js_Number JUndefined = NaN"
| "js_Number JNull = Fin 0"
| "js_Number (JBool b) = Fin (if b then 1 else 0)"
| "js_Number (JNum n) = n"
| "js_Number (JStr s) = StringToNumber s"

text \<open>
  \<^verbatim>\<open>parseInt(x, 10)\<close> of a query field: \<open>ToString\<close> of an absent field is
  \<^verbatim>\<open>"undefined"\<close>; leading white space is dropped, then a sign, then the longest
  prefix of decimal digits is read; no digit gives \<open>NaN\<close>.
\<close>

definition ToString_query :: "string option \<Rightarrow> string" where
  "ToString_query x = (case x of None \<Rightarrow> ''undefined'' | Some s \<Rightarrow> s)"

definition parseInt10 :: "string option \<Rightarrow> jsnum" where
  "parseInt10 x =
     (let S = trimStart (ToString_query x);
          (neg, S') =
            (case S of
               [] \<Rightarrow> (False, [])
             | c # r \<Rightarrow> if c = CHR ''-'' then (True, r)
                        else if c = CHR ''+'' then (False, r) else (False, S));
          Z = takeWhile is_digit S'
      in if Z = [] then NaN
         else round_double ((if neg then - 1 else 1) * of_int (digits_val Z)))"

fun js_isNaN :: "jsnum \<Rightarrow> bool" where
  "js_isNaN NaN = True"
| "js_isNaN _ = False"

text \<open>\<^verbatim>\<open>lim < 1\<close> on numbers (false on \<open>NaN\<close>).\<close>

fun js_lt_1 :: "jsnum \<Rightarrow> bool" where
  "js_lt_1 NaN = False"
| "js_lt_1 (Fin q) = (q < 1)"
| "js_lt_1 PInf = False"
| "js_lt_1 NInf = True"


section \<open>Dates: the time value, parsing and \<^verbatim>\<open>toDateString\<close>\<close>

text \<open>
  A valid \<^verbatim>\<open>Date\<close> holds a time value: the milliseconds since 1970-01-01T00:00:00Z,
  an integer of magnitude at most \<open>8.64 \<times> 10\<^sup>1\<^sup>5\<close>. An invalid date (time value
  \<open>NaN\<close>) is \<open>None\<close>. The runtime environment is a parameter: the clock read by
  \<^verbatim>\<open>new Date()\<close>, the offset of local time from UTC (\<open>LocalTZA(t, isUTC)\<close> of
  ECMAScript, in milliseconds), and the implementation-defined parser that
  \<^verbatim>\<open>Date.parse\<close> falls back to for a string outside the ECMAScript date-time format.
\<close>

record env =
  now :: int
  LocalTZA :: "int \<Rightarrow> bool \<Rightarrow> int"
  legacy_parse :: "string \<Rightarrow> int option"

definition msPerDay :: int where
  "msPerDay = 86400000"

definition TimeClip :: "int \<Rightarrow> int option" where
  "TimeClip t = (if 8640000000000000 < \<bar>t\<bar> then None else Some t)"

definition is_leap :: "int \<Rightarrow> bool" where
  "is_leap y \<longleftrightarrow> y mod 4 = 0 \<and> (y mod 100 \<noteq> 0 \<or> y mod 400 = 0)"

definition DaysInMonth :: "int \<Rightarrow> int \<Rightarrow> int" where
  "DaysInMonth y m =
     (if m = 2 then (if is_leap y then 29 else 28)
      else if m = 4 \<or> m = 6 \<or> m = 9 \<or> m = 11 then 30 else 31)"

text \<open>The day number of the first day of year \<open>y\<close> (\<open>DayFromYear\<close> of ECMAScript).\<close>

definition DayFromYear :: "int \<Rightarrow> int" where
  "DayFromYear y =
     365 * (y - 1970) + (y - 1969) div 4 - (y - 1901) div 100 + (y - 1601) div 400"

text \<open>The days of year \<open>y\<close> before its month \<open>m\<close> (1 to 12).\<close>

definition days_before_month :: "int \<Rightarrow> int \<Rightarrow> int" where
  "days_before_month y m =
     [0, 31, 59, 90, 120, 151, 181, 212, 243, 273, 304, 334] ! nat (m - 1)
       + (if 2 < m \<and> is_leap y then 1 else 0)"

text \<open>\<open>MakeDay\<close> for a month in 1 to 12 and a day of that month.\<close>

definition MakeDay :: "int \<Rightarrow> int \<Rightarrow> int \<Rightarrow> int" where
  "MakeDay y m d = DayFromYear y + days_before_month y m + d - 1"

text \<open>
  The calendar date \<open>(year, month, day)\<close> of a day number, month in 1 to 12: whole
  cycles of 400, 100, 4 and 1 years are taken off the days since 0000-03-01, and the
  month is read off the day of the year that starts in March.
\<close>

definition civil_from_day :: "int \<Rightarrow> int \<times> int \<times> int" where
  "civil_from_day day =
     (let z = day + 719468;
          n400 = z div 146097; r400 = z mod 146097;
          n100 = min 3 (r400 div 36524); r100 = r400 - 36524 * n100;
          n4 = r100 div 1461; r4 = r100 mod 1461;
          n1 = min 3 (r4 div 365); doy = r4 - 365 * n1;
          mp = (5 * doy + 2) div 153;
          d = doy - (153 * mp + 2) div 5 + 1;
          m = (if mp < 10 then mp + 3 else mp - 9)
      in (400 * n400 + 100 * n100 + 4 * n4 + n1 + (if m \<le> 2 then 1 else 0), m, d))"

text \<open>\<open>WeekDay(t) = (Day(t) + 4) mod 7\<close>, Sunday is 0.\<close>

definition WeekDay :: "int \<Rightarrow> int" where
  "WeekDay day = (day + 4) mod 7"

definition weekday_names :: "string list" where
  "weekday_names = [''Sun'', ''Mon'', ''Tue'', ''Wed'', ''Thu'', ''Fri'', ''Sat'']"

definition weekday_name :: "int \<Rightarrow> string" where
  "weekday_name w = weekday_names ! nat w"

definition month_names :: "string list" where
  "month_names =
     [''Jan'', ''Feb'', ''Mar'', ''Apr'', ''May'', ''Jun'',
      ''Jul'', ''Aug'', ''Sep'', ''Oct'', ''Nov'', ''Dec'']"

definition month_name :: "int \<Rightarrow> string" where
  "month_name m = month_names ! nat (m - 1)"

definition digit_char :: "int \<Rightarrow> char" where
  "digit_char n = char_of (48 + n)"

text \<open>The decimal digits of a number that is not negative.\<close>

function dec_string :: "int \<Rightarrow> string" where
  "dec_string n =
     (if n < 10 then [digit_char n] else dec_string (n div 10) @ [digit_char (n mod 10)])"
  by pat_completeness auto
termination
  by (relation "measure nat") auto

declare dec_string.simps [simp del]

text \<open>\<open>ToZeroPaddedDecimalString(n, minLength)\<close>.\<close>

definition ToZeroPaddedDecimalString :: "int \<Rightarrow> nat \<Rightarrow> string" where
  "ToZeroPaddedDecimalString n minLength =
     replicate (minLength - length (dec_string n)) CHR ''0'' @ dec_string n"

text \<open>
  \<^verbatim>\<open>Date.prototype.toDateString\<close> of a valid date: the weekday, the month, the day on
  two digits and the year on at least four, a negative year with a minus sign, all of
  the LOCAL time \<open>t + LocalTZA(t, true)\<close>.
\<close>

definition toDateString :: "env \<Rightarrow> int \<Rightarrow> string" where
  "toDateString E tv =
     (let t = tv + LocalTZA E tv True;
          day = t div msPerDay;
          (y, m, d) = civil_from_day day
      in weekday_name (WeekDay day) @ '' '' @ month_name m @ '' ''
           @ ToZeroPaddedDecimalString d 2 @ '' ''
           @ (if 0 \<le> y then [] else ''-'') @ ToZeroPaddedDecimalString \<bar>y\<bar> 4)"

text \<open>
  \<^verbatim>\<open>const toFCCDateString = (d) => new Date(d).toDateString();\<close> The argument is the
  stored date of an exercise, a valid \<^verbatim>\<open>Date\<close>, which \<^verbatim>\<open>new Date(d)\<close> copies.
\<close>

definition toFCCDateString :: "env \<Rightarrow> int \<Rightarrow> string" where
  "toFCCDateString E d = toDateString E d"

text \<open>
  The ECMAScript date-time string format:
  \<^verbatim>\<open>YYYY[-MM[-DD]][THH:mm[:ss[.sss]][Z|+HH:mm|-HH:mm]]\<close>, the year also as
  \<^verbatim>\<open>+YYYYYY\<close> or \<^verbatim>\<open>-YYYYYY\<close> (not \<^verbatim>\<open>-000000\<close>). A date-only form is UTC; a
  date-time form with no offset is local time.
\<close>

definition take_digits :: "nat \<Rightarrow> string \<Rightarrow> (int \<times> string) option" where
  "take_digits n s =
     (if n \<le> length s \<and> list_all is_digit (take n s)
      then Some (digits_val (take n s), drop n s) else None)"

definition expect :: "char \<Rightarrow> string \<Rightarrow> string option" where
  "expect c s = (case s of [] \<Rightarrow> None | x # r \<Rightarrow> if x = c then Some r else None)"

definition iso_year :: "string \<Rightarrow> (int \<times> string) option" where
  "iso_year s =
     (case s of
        [] \<Rightarrow> None
      | c # r \<Rightarrow>
          if c = CHR ''+'' then take_digits 6 r
          else if c = CHR ''-'' then
            (case take_digits 6 r of
               None \<Rightarrow> None
             | Some (y, r') \<Rightarrow> if y = 0 then None else Some (- y, r'))
          else take_digits 4 s)"

definition iso_date :: "string \<Rightarrow> ((int \<times> int \<times> int) \<times> string) option" where
  "iso_date s =
     do {
       (y, r) \<leftarrow> iso_year s;
       case expect CHR ''-'' r of
         None \<Rightarrow> Some ((y, 1, 1), r)
       | Some r1 \<Rightarrow>
           do {
             (m, r2) \<leftarrow> take_digits 2 r1;
             case expect CHR ''-'' r2 of
               None \<Rightarrow> Some ((y, m, 1), r2)
             | Some r3 \<Rightarrow> do { (d, r4) \<leftarrow> take_digits 2 r3; Some ((y, m, d), r4) }
           }
     }"

text \<open>The time of day after the \<^verbatim>\<open>T\<close>, in milliseconds, and what follows it.\<close>

definition iso_time :: "string \<Rightarrow> (int \<times> string) option" where
  "iso_time s =
     do {
       (h, r1) \<leftarrow> take_digits 2 s;
       r2 \<leftarrow> expect CHR '':'' r1;
       (mi, r3) \<leftarrow> take_digits 2 r2;
       ((sec, ms), r) \<leftarrow>
         (case expect CHR '':'' r3 of
            None \<Rightarrow> Some ((0, 0), r3)
          | Some r4 \<Rightarrow>
              do {
                (sec, r5) \<leftarrow> take_digits 2 r4;
                case expect CHR ''.'' r5 of
                  None \<Rightarrow> Some ((sec, 0), r5)
                | Some r6 \<Rightarrow> do { (ms, r7) \<leftarrow> take_digits 3 r6; Some ((sec, ms), r7) }
              });
       if (h < 24 \<and> mi < 60 \<and> sec < 60) \<or> (h = 24 \<and> mi = 0 \<and> sec = 0 \<and> ms = 0)
       then Some (((h * 60 + mi) * 60 + sec) * 1000 + ms, r)
       else None
     }"

text \<open>The offset in milliseconds, \<open>None\<close> for local time.\<close>

definition iso_zone :: "string \<Rightarrow> int option option" where
  "iso_zone s =
     (if s = [] then Some None
      else if s = ''Z'' then Some (Some 0)
      else case s of
        [] \<Rightarrow> None
      | c # r \<Rightarrow>
          if c = CHR ''+'' \<or> c = CHR ''-'' then
            do {
              (h, r1) \<leftarrow> take_digits 2 r;
              r2 \<leftarrow> expect CHR '':'' r1;
              (mi, r3) \<leftarrow> take_digits 2 r2;
              if r3 = [] \<and> h < 24 \<and> mi < 60
              then Some (Some ((if c = CHR ''-'' then - 1 else 1) * (h * 60 + mi) * 60000))
              else None
            }
          else None)"

text \<open>
  The time value of a string of the format whose fields are in range, the day within
  its month; \<open>None\<close> for every other string, \<open>Some None\<close> for a time out of the range
  of \<open>TimeClip\<close>.
\<close>

definition iso_parse :: "env \<Rightarrow> string \<Rightarrow> int option option" where
  "iso_parse E s =
     do {
       ((y, m, d), r) \<leftarrow> iso_date s;
       if \<not> (1 \<le> m \<and> m \<le> 12 \<and> 1 \<le> d \<and> d \<le> DaysInMonth y m) then None
       else if r = [] then Some (TimeClip (MakeDay y m d * msPerDay))
       else do {
         r1 \<leftarrow> expect CHR ''T'' r;
         (tod, r2) \<leftarrow> iso_time r1;
         z \<leftarrow> iso_zone r2;
         let t = MakeDay y m d * msPerDay + tod
         in Some (TimeClip (case z of None \<Rightarrow> t - LocalTZA E t False | Some off \<Rightarrow> t - off))
       }
     }"

text \<open>
  The time value of \<^verbatim>\<open>new Date(s)\<close> for a string, that is \<open>TimeClip\<close> of
  \<^verbatim>\<open>Date.parse(s)\<close>: the format first, then the implementation's own parser. The
  empty string is recognised by neither.
\<close>

definition Date_parse :: "env \<Rightarrow> string \<Rightarrow> int option" where
  "Date_parse E s =
     (if s = [] then None
      else case iso_parse E s of
             Some r \<Rightarrow> r
           | None \<Rightarrow> (case legacy_parse E s of None \<Rightarrow> None | Some t \<Rightarrow> TimeClip t))"

text \<open>\<open>TimeClip\<close> of a number: not finite or too large is invalid, else truncated.\<close>

fun TimeClip_num :: "jsnum \<Rightarrow> int option" where
  "TimeClip_num (Fin q) =
     (if 8640000000000000 < \<bar>q\<bar> then None else Some (if 0 \<le> q then \<lfloor>q\<rfloor> else \<lceil>q\<rceil>))"
| "TimeClip_num _ = None"

text \<open>
  \<^verbatim>\<open>new Date(v)\<close> of one argument: a string is parsed, \<^verbatim>\<open>undefined\<close> is invalid,
  every other value is converted to a number and clipped.
\<close>

fun new_Date :: "env \<Rightarrow> jsval \<Rightarrow> int option" where
  "new_Date E (JStr s) = Date_parse E s"
| "new_Date E v = TimeClip_num (js_Number v)"

section \<open>Documents and the persistence collaborator\<close>

text \<open>
  The two Mongoose models (\<^verbatim>\<open>./models/User\<close>, \<^verbatim>\<open>./models/Exercise\<close>) are required by
  \<^verbatim>\<open>server.js\<close> and not part of the sources at hand. Identifiers are opaque and
  generated by the store; they are natural numbers here.
\<close>

record user =
  u_id :: nat
  u_username :: string

record exercise =
  e_id :: nat
  e_userId :: nat
  e_description :: string
  e_duration :: jsnum
  e_date :: int

record store =
  users :: "user list"
  exercises :: "exercise list"
  next_id :: nat

datatype db_error = DuplicateKey

text \<open>
  Modelled from the spec: \<^verbatim>\<open>User.create\<close> of the missing \<^verbatim>\<open>./models/User\<close>
  (the persistence collaborator's \<open>create(record) \<rightarrow> record-with-id\<close>). It reports a
  uniqueness violation on \<open>username\<close> (the error with \<^verbatim>\<open>code === 11000\<close> and
  \<^verbatim>\<open>keyPattern.username\<close> that the handler inspects) when a user of that name is stored,
  and otherwise appends the new user under a generated identifier.
\<close>

definition User_create :: "store \<Rightarrow> string \<Rightarrow> db_error + (user \<times> store)" where
  "User_create st name =
     (if \<exists>u \<in> set (users st). u_username u = name then Inl DuplicateKey
      else let u = \<lparr>u_id = next_id st, u_username = name\<rparr>
           in Inr (u, st\<lparr>users := users st @ [u], next_id := Suc (next_id st)\<rparr>))"

text \<open>
  Modelled from the spec: \<^verbatim>\<open>User.findOne({ username })\<close> of the missing
  \<^verbatim>\<open>./models/User\<close> (the collaborator's lookup of the existing user with that
  username): the first stored user of that name, if any.
\<close>

definition User_findOne :: "store \<Rightarrow> string \<Rightarrow> user option" where
  "User_findOne st name = find (\<lambda>u. u_username u = name) (users st)"

text \<open>
  Modelled from the spec: \<^verbatim>\<open>User.findById\<close> of the missing \<^verbatim>\<open>./models/User\<close>
  (the collaborator's \<open>findById(id) \<rightarrow> record | none\<close>).
\<close>

definition User_findById :: "store \<Rightarrow> nat \<Rightarrow> user option" where
  "User_findById st i = find (\<lambda>u. u_id u = i) (users st)"

section \<open>Responses\<close>

text \<open>
  A handler answers with a JSON body, or with a status and \<^verbatim>\<open>{ error: msg }\<close>:
  400 is \<open>ValidationError\<close>, 404 is \<open>NotFoundError\<close>, 500 is \<open>ServerError\<close>.
  \<open>UnhandledRejection\<close> is an exception thrown inside a \<^verbatim>\<open>catch\<close> block, which
  leaves the request without a response.
\<close>

datatype error =
    ValidationError string
  | NotFoundError string
  | ServerError string
  | UnhandledRejection

record user_view =
  uv_username :: string
  uv_id :: nat

section \<open>POST /api/users\<close>

text \<open>
  \<^verbatim>\<open>
  const { username } = req.body;
  if (!username || !username.trim()) return res.status(400).json({ error: 'username is required' });
  const user = await User.create({ username: username.trim() });
  res.json({ username: user.username, _id: user._id });
  } catch (err) {
    if (err.code === 11000 && err.keyPattern?.username) {
      const existing = await User.findOne({ username: req.body.username.trim() }).lean();
      return res.json({ username: existing.username, _id: existing._id });
    }
    res.status(500).json({ error: 'server error' });
  \<close>
  A truthy value that is not a string has no \<^verbatim>\<open>trim\<close> method: the call throws a
  TypeError inside the \<^verbatim>\<open>try\<close>, which has no \<^verbatim>\<open>code\<close>, so the handler answers 500.
\<close>

definition register :: "store \<Rightarrow> jsval \<Rightarrow> (error + user_view) \<times> store" where
  "register st username =
     (if \<not> truthy username then (Inl (ValidationError ''username is required''), st)
      else case username of
        JStr s \<Rightarrow>
          if trim s = [] then (Inl (ValidationError ''username is required''), st)
          else (case User_create st (trim s) of
                  Inr (u, st') \<Rightarrow> (Inr \<lparr>uv_username = u_username u, uv_id = u_id u\<rparr>, st')
                | Inl DuplicateKey \<Rightarrow>
                    (case User_findOne st (trim s) of
                       Some existing \<Rightarrow>
                         (Inr \<lparr>uv_username = u_username existing, uv_id = u_id existing\<rparr>, st)
                     | None \<Rightarrow> (Inl UnhandledRejection, st)))
      | _ \<Rightarrow> (Inl (ServerError ''server error''), st))"


section \<open>POST /api/users/:_id/exercises\<close>

text \<open>
  Modelled from the spec: \<^verbatim>\<open>Exercise.create\<close> of the missing \<^verbatim>\<open>./models/Exercise\<close>
  (the collaborator's \<open>create(record) \<rightarrow> record-with-id\<close>): the record is stored as
  given, under a generated identifier.
\<close>

definition Exercise_create ::
  "store \<Rightarrow> nat \<Rightarrow> string \<Rightarrow> jsnum \<Rightarrow> int \<Rightarrow> exercise \<times> store" where
  "Exercise_create st userId description duration date =
     (let ex = \<lparr>e_id = next_id st, e_userId = userId, e_description = description,
                e_duration = duration, e_date = date\<rparr>
      in (ex, st\<lparr>exercises := exercises st @ [ex], next_id := Suc (next_id st)\<rparr>))"

record exercise_view =
  ev_id :: nat
  ev_username :: string
  ev_date :: string
  ev_duration :: jsnum
  ev_description :: string

text \<open>
  \<^verbatim>\<open>
  const user = await User.findById(_id).lean();
  if (!user) return res.status(404).json({ error: 'user not found' });
  const dur = Number(duration);
  if (!description || !dur)
    return res.status(400).json({ error: 'description and duration are required' });
  let d = date ? new Date(date) : new Date();
  if (isNaN(d.getTime())) d = new Date();
  const ex = await Exercise.create({ userId: user._id, description: description.trim(),
                                     duration: dur, date: d });
  res.json({ _id: user._id, username: user.username, date: toFCCDateString(ex.date),
             duration: ex.duration, description: ex.description });
  } catch (err) { res.status(500).json({ error: 'server error' }); }
  \<close>
  A truthy description that is not a string has no \<^verbatim>\<open>trim\<close> method: the call throws
  before \<^verbatim>\<open>Exercise.create\<close> runs, and the \<^verbatim>\<open>catch\<close> answers 500.
\<close>

text \<open>
  The two lines that resolve the date: \<^verbatim>\<open>let d = date ? new Date(date) : new Date();\<close>
  and \<^verbatim>\<open>if (isNaN(d.getTime())) d = new Date();\<close>
\<close>

definition resolve_date :: "env \<Rightarrow> jsval \<Rightarrow> int" where
  "resolve_date E date =
     (let d = (if truthy date then new_Date E date else Some (now E))
      in case d of None \<Rightarrow> now E | Some t \<Rightarrow> t)"

definition logExercise ::
  "env \<Rightarrow> store \<Rightarrow> nat \<Rightarrow> jsval \<Rightarrow> jsval \<Rightarrow> jsval \<Rightarrow> (error + exercise_view) \<times> store" where
  "logExercise E st userId description duration date =
     (case User_findById st userId of
        None \<Rightarrow> (Inl (NotFoundError ''user not found''), st)
      | Some user \<Rightarrow>
          let dur = js_Number duration
          in if \<not> truthy description \<or> \<not> truthy (JNum dur)
             then (Inl (ValidationError ''description and duration are required''), st)
             else
               let d = resolve_date E date
               in (case description of
                     JStr s \<Rightarrow>
                       let (ex, st') = Exercise_create st (u_id user) (trim s) dur d
                       in (Inr \<lparr>ev_id = u_id user, ev_username = u_username user,
                                ev_date = toFCCDateString E (e_date ex),
                                ev_duration = e_duration ex,
                                ev_description = e_description ex\<rparr>, st')
                   | _ \<Rightarrow> (Inl (ServerError ''server error''), st)))"

section \<open>GET /api/users/:_id/logs\<close>

text \<open>
  The Mongo query of the handler: the owner, and an optional range on the date with an
  optional bound on each side (\<^verbatim>\<open>$gte\<close>, \<^verbatim>\<open>$lte\<close>).
\<close>

record date_filter =
  f_gte :: "int option"
  f_lte :: "int option"

record query =
  q_userId :: nat
  q_date :: "date_filter option"

definition matches :: "query \<Rightarrow> exercise \<Rightarrow> bool" where
  "matches q e \<longleftrightarrow>
     e_userId e = q_userId q \<and>
     (case q_date q of
        None \<Rightarrow> True
      | Some f \<Rightarrow>
          (case f_gte f of None \<Rightarrow> True | Some g \<Rightarrow> g \<le> e_date e) \<and>
          (case f_lte f of None \<Rightarrow> True | Some l \<Rightarrow> e_date e \<le> l))"

text \<open>The cap of a query: the first \<open>n\<close> documents, all of them under no or an infinite cap.\<close>

fun apply_limit :: "jsnum option \<Rightarrow> 'a list \<Rightarrow> 'a list" where
  "apply_limit (Some (Fin q)) xs = take (nat \<lfloor>q\<rfloor>) xs"
| "apply_limit _ xs = xs"

text \<open>
  Modelled from the spec: \<^verbatim>\<open>Exercise.find(query, null, { sort: { date: 1 }, limit })\<close>
  of the missing \<^verbatim>\<open>./models/Exercise\<close> (the collaborator's
  \<open>find(filter, sort, limit) \<rightarrow> ordered sequence of records\<close>): the stored exercises
  that match, in ascending order of date (those of one date in the order stored), cut
  at the limit.
\<close>

definition Exercise_find :: "store \<Rightarrow> query \<Rightarrow> jsnum option \<Rightarrow> exercise list" where
  "Exercise_find st q limit = apply_limit limit (sort_key e_date (filter (matches q) (exercises st)))"

record log_entry =
  le_description :: string
  le_duration :: jsnum
  le_date :: string

record log_view =
  lv_username :: string
  lv_count :: nat
  lv_id :: nat
  lv_log :: "log_entry list"

text \<open>
  \<^verbatim>\<open>
  const query = { userId: user._id };
  if (from || to) {
    query.date = {};
    if (from) { const fd = new Date(from); if (!isNaN(fd.getTime())) query.date.$gte = fd; }
    if (to)   { const td = new Date(to);   if (!isNaN(td.getTime())) query.date.$lte = td; }
    if (Object.keys(query.date).length === 0) delete query.date;
  }
  \<close>
\<close>

definition truthy_query :: "string option \<Rightarrow> bool" where
  "truthy_query x = (case x of None \<Rightarrow> False | Some s \<Rightarrow> s \<noteq> [])"

definition date_bound :: "env \<Rightarrow> string option \<Rightarrow> int option" where
  "date_bound E x =
     (if truthy_query x then (case x of None \<Rightarrow> None | Some s \<Rightarrow> Date_parse E s) else None)"

definition build_query :: "env \<Rightarrow> user \<Rightarrow> string option \<Rightarrow> string option \<Rightarrow> query" where
  "build_query E user from to =
     \<lparr>q_userId = u_id user,
      q_date =
        (if truthy_query from \<or> truthy_query to then
           (let f = \<lparr>f_gte = date_bound E from, f_lte = date_bound E to\<rparr>
            in if f_gte f = None \<and> f_lte f = None then None else Some f)
         else None)\<rparr>"

text \<open>
  \<^verbatim>\<open>
  let lim = parseInt(limit, 10);
  if (isNaN(lim) || lim < 1) lim = undefined;
  \<close>
\<close>

definition parse_limit :: "string option \<Rightarrow> jsnum option" where
  "parse_limit limit =
     (let n = parseInt10 limit in if js_isNaN n \<or> js_lt_1 n then None else Some n)"

text \<open>
  \<^verbatim>\<open>
  const exercises = await Exercise.find(query, null, { sort: { date: 1 }, limit: lim }).lean();
  const log = exercises.map((e) => ({ description: e.description, duration: e.duration,
                                      date: toFCCDateString(e.date) }));
  res.json({ username: user.username, count: exercises.length, _id: user._id, log });
  \<close>
\<close>

definition getLogs_exercises ::
  "env \<Rightarrow> store \<Rightarrow> user \<Rightarrow> string option \<Rightarrow> string option \<Rightarrow> string option \<Rightarrow> exercise list" where
  "getLogs_exercises E st user from to limit =
     Exercise_find st (build_query E user from to) (parse_limit limit)"

definition log_entry_of :: "env \<Rightarrow> exercise \<Rightarrow> log_entry" where
  "log_entry_of E e =
     \<lparr>le_description = e_description e, le_duration = e_duration e,
      le_date = toFCCDateString E (e_date e)\<rparr>"

definition getLogs ::
  "env \<Rightarrow> store \<Rightarrow> nat \<Rightarrow> string option \<Rightarrow> string option \<Rightarrow> string option \<Rightarrow> error + log_view" where
  "getLogs E st userId from to limit =
     (case User_findById st userId of
        None \<Rightarrow> Inl (NotFoundError ''user not found'')
      | Some user \<Rightarrow>
          let exercises = getLogs_exercises E st user from to limit
          in Inr \<lparr>lv_username = u_username user, lv_count = length exercises,
                  lv_id = u_id user, lv_log = map (log_entry_of E) exercises\<rparr>)"

section \<open>A sample environment and sample stores\<close>

text \<open>
  Two servers, one on UTC and one five hours west of it, neither with a parser of its
  own; the empty store, and the store after \<^verbatim>\<open>alice\<close> has registered.
\<close>

definition env_utc :: env where
  "env_utc = \<lparr>now = 1700000000000, LocalTZA = (\<lambda>t isUTC. 0), legacy_parse = (\<lambda>s. None)\<rparr>"

definition env_west :: env where
  "env_west =
     \<lparr>now = 1700000000000, LocalTZA = (\<lambda>t isUTC. - 18000000), legacy_parse = (\<lambda>s. None)\<rparr>"

definition store_empty :: store where
  "store_empty = \<lparr>users = [], exercises = [], next_id = 0\<rparr>"

definition store_alice :: store where
  "store_alice = \<lparr>users = [\<lparr>u_id = 0, u_username = ''alice''\<rparr>], exercises = [], next_id = 1\<rparr>"

text \<open>The store after \<^verbatim>\<open>alice\<close> has logged a run of 30 minutes on 2023-05-01.\<close>

definition store_run :: store where
  "store_run =
     \<lparr>users = [\<lparr>u_id = 0, u_username = ''alice''\<rparr>],
      exercises = [\<lparr>e_id = 1, e_userId = 0, e_description = ''run'', e_duration = Fin 30,
                    e_date = 1682899200000\<rparr>],
      next_id = 2\<rparr>"

section \<open>The date filter and the sample log, in the words of the specification\<close>

text \<open>
  An entry passes the date filter when its date is at or after \<open>from\<close>, if \<open>from\<close> is
  present and parses to a valid date, and at or before \<open>to\<close>, if \<open>to\<close> is present and
  parses to a valid date.
\<close>

definition spec_date_filter :: "env \<Rightarrow> string option \<Rightarrow> string option \<Rightarrow> exercise \<Rightarrow> bool" where
  "spec_date_filter E from to e \<longleftrightarrow>
     (case from of
        None \<Rightarrow> True
      | Some s \<Rightarrow> (case Date_parse E s of None \<Rightarrow> True | Some f \<Rightarrow> f \<le> e_date e))
     \<and> (case to of
          None \<Rightarrow> True
        | Some s \<Rightarrow> (case Date_parse E s of None \<Rightarrow> True | Some t \<Rightarrow> e_date e \<le> t))"

text \<open>
  A store with two users; \<^verbatim>\<open>alice\<close> has five exercises, logged out of order on the
  first five days of May 2023, and \<^verbatim>\<open>bob\<close> has one.
\<close>

definition store_five :: store where
  "store_five =
     \<lparr>users = [\<lparr>u_id = 0, u_username = ''alice''\<rparr>, \<lparr>u_id = 1, u_username = ''bob''\<rparr>],
      exercises =
        [\<lparr>e_id = 2, e_userId = 0, e_description = ''c'', e_duration = Fin 30,
          e_date = 1683072000000\<rparr>,
         \<lparr>e_id = 3, e_userId = 0, e_description = ''a'', e_duration = Fin 10,
          e_date = 1682899200000\<rparr>,
         \<lparr>e_id = 4, e_userId = 1, e_description = ''z'', e_duration = Fin 5,
          e_date = 1682899200000\<rparr>,
         \<lparr>e_id = 5, e_userId = 0, e_description = ''e'', e_duration = Fin 50,
          e_date = 1683244800000\<rparr>,
         \<lparr>e_id = 6, e_userId = 0, e_description = ''b'', e_duration = Fin 20,
          e_date = 1682985600000\<rparr>,
         \<lparr>e_id = 7, e_userId = 0, e_description = ''d'', e_duration = Fin 40,
          e_date = 1683158400000\<rparr>],
      next_id = 8\<rparr>"

section \<open>Properties of registration\<close>

lemma find_username_Some:
  "\<exists>u \<in> set us. u_username u = name \<Longrightarrow>
   \<exists>e. find (\<lambda>u. u_username u = name) us = Some e \<and> e \<in> set us \<and> u_username e = name"
  by (induction us) auto

lemma find_username_append_new:
  "\<not> (\<exists>u \<in> set us. u_username u = name) \<Longrightarrow>
   find (\<lambda>u. u_username u = name) (us @ [\<lparr>u_id = i, u_username = name\<rparr>])
     = Some \<lparr>u_id = i, u_username = name\<rparr>"
  by (induction us) auto

lemma register_blank:
  "trim s = [] \<Longrightarrow> register st (JStr s) = (Inl (ValidationError ''username is required''), st)"
  by (simp add: register_def)

lemma register_fresh:
  assumes "trim s \<noteq> []" and "\<not> (\<exists>u \<in> set (users st). u_username u = trim s)"
  shows "register st (JStr s) =
           (Inr \<lparr>uv_username = trim s, uv_id = next_id st\<rparr>,
            st\<lparr>users := users st @ [\<lparr>u_id = next_id st, u_username = trim s\<rparr>],
               next_id := Suc (next_id st)\<rparr>)"
proof -
  from assms(1) have "s \<noteq> []" by (auto simp: trim_def)
  with assms show ?thesis by (simp add: register_def User_create_def Let_def)
qed

lemma register_existing:
  assumes "trim s \<noteq> []" and "\<exists>u \<in> set (users st). u_username u = trim s"
  shows "\<exists>e. User_findOne st (trim s) = Some e \<and> e \<in> set (users st) \<and> u_username e = trim s
             \<and> register st (JStr s) = (Inr \<lparr>uv_username = trim s, uv_id = u_id e\<rparr>, st)"
proof -
  from assms(1) have ne: "s \<noteq> []" by (auto simp: trim_def)
  from find_username_Some [OF assms(2)] obtain e where
    e: "find (\<lambda>u. u_username u = trim s) (users st) = Some e" "e \<in> set (users st)"
       "u_username e = trim s" by blast
  have "register st (JStr s) = (Inr \<lparr>uv_username = trim s, uv_id = u_id e\<rparr>, st)"
    using assms ne e by (simp add: register_def User_create_def User_findOne_def)
  with e show ?thesis by (auto simp: User_findOne_def)
qed

lemma register_found:
  assumes "trim s \<noteq> []" and "User_findOne st (trim s) = Some e"
  shows "register st (JStr s) = (Inr \<lparr>uv_username = u_username e, uv_id = u_id e\<rparr>, st)"
proof -
  from assms(1) have ne: "s \<noteq> []" by (auto simp: trim_def)
  from assms(2) have "\<exists>u \<in> set (users st). u_username u = trim s"
    by (auto simp: User_findOne_def find_Some_iff)
  with assms ne show ?thesis by (simp add: register_def User_create_def)
qed

lemma trim_blank: "trim ''   '' = []"
  by (simp add: trim_def is_ws_def)

lemma trim_alice: "trim '' alice '' = ''alice''"
  by (simp add: trim_def is_ws_def)

text \<open>
  C9. Registration answers 400 for every username that is empty after trimming (the
  empty string and the strings of white space among them). For every other username
  the store afterwards holds a user whose username is the trimmed input, and the
  answer is that user's name and identifier and nothing else.
\<close>

theorem register_validates_and_persists:
  "(trim s = [] \<longrightarrow>
      register st (JStr s) = (Inl (ValidationError ''username is required''), st))
   \<and> (trim s \<noteq> [] \<longrightarrow>
        (\<exists>u st'. register st (JStr s) = (Inr \<lparr>uv_username = trim s, uv_id = u_id u\<rparr>, st')
                 \<and> u \<in> set (users st') \<and> u_username u = trim s))"
proof (intro conjI impI)
  assume "trim s = []"
  then show "register st (JStr s) = (Inl (ValidationError ''username is required''), st)"
    by (rule register_blank)
next
  assume ne: "trim s \<noteq> []"
  show "\<exists>u st'. register st (JStr s) = (Inr \<lparr>uv_username = trim s, uv_id = u_id u\<rparr>, st')
                 \<and> u \<in> set (users st') \<and> u_username u = trim s"
  proof (cases "\<exists>u \<in> set (users st). u_username u = trim s")
    case True
    from register_existing [OF ne True] show ?thesis by blast
  next
    case False
    let ?u = "\<lparr>u_id = next_id st, u_username = trim s\<rparr>"
    let ?st = "st\<lparr>users := users st @ [?u], next_id := Suc (next_id st)\<rparr>"
    have "register st (JStr s) = (Inr \<lparr>uv_username = trim s, uv_id = u_id ?u\<rparr>, ?st)"
      using register_fresh [OF ne False] by simp
    moreover have "?u \<in> set (users ?st)" by simp
    moreover have "u_username ?u = trim s" by simp
    ultimately show ?thesis by blast
  qed
qed

theorem register_validates_and_persists_witness:
  "register store_empty (JStr []) = (Inl (ValidationError ''username is required''), store_empty)
   \<and> register store_empty (JStr ''   '')
       = (Inl (ValidationError ''username is required''), store_empty)
   \<and> (\<exists>u st'. register store_empty (JStr '' alice '')
                 = (Inr \<lparr>uv_username = ''alice'', uv_id = u_id u\<rparr>, st')
              \<and> u \<in> set (users st') \<and> u_username u = ''alice'')"
  using register_validates_and_persists [of "[]" store_empty]
        register_validates_and_persists [of "''   ''" store_empty]
        register_validates_and_persists [of "'' alice ''" store_empty]
  by (simp add: trim_blank trim_alice) (simp add: trim_def)

text \<open>
  C3. Registration is idempotent by username: for a username that is not empty after
  trimming, registering it and registering it again gives the same user, under the
  same identifier, both times, and the second call leaves the store as it was. When
  the store reports a uniqueness violation on the username, registration does not
  fail: it looks the stored user of that name up and answers with it.
\<close>

theorem register_idempotent:
  assumes "trim u \<noteq> []"
  shows "(\<exists>i st1. register st (JStr u) = (Inr \<lparr>uv_username = trim u, uv_id = i\<rparr>, st1)
                 \<and> register st1 (JStr u) = (Inr \<lparr>uv_username = trim u, uv_id = i\<rparr>, st1))
         \<and> (User_create st (trim u) = Inl DuplicateKey \<longrightarrow>
              (\<exists>e. User_findOne st (trim u) = Some e \<and> e \<in> set (users st)
                   \<and> u_username e = trim u
                   \<and> register st (JStr u)
                       = (Inr \<lparr>uv_username = u_username e, uv_id = u_id e\<rparr>, st)))"
proof (intro conjI impI)
  show "\<exists>i st1. register st (JStr u) = (Inr \<lparr>uv_username = trim u, uv_id = i\<rparr>, st1)
                 \<and> register st1 (JStr u) = (Inr \<lparr>uv_username = trim u, uv_id = i\<rparr>, st1)"
  proof (cases "\<exists>x \<in> set (users st). u_username x = trim u")
    case True
    from register_existing [OF assms True] show ?thesis by blast
  next
    case False
    let ?u = "\<lparr>u_id = next_id st, u_username = trim u\<rparr>"
    let ?st = "st\<lparr>users := users st @ [?u], next_id := Suc (next_id st)\<rparr>"
    have first: "register st (JStr u) = (Inr \<lparr>uv_username = trim u, uv_id = next_id st\<rparr>, ?st)"
      by (rule register_fresh [OF assms False])
    have "User_findOne ?st (trim u) = Some ?u"
      using find_username_append_new [OF False] by (simp add: User_findOne_def)
    from register_found [OF assms this]
    have "register ?st (JStr u) = (Inr \<lparr>uv_username = trim u, uv_id = next_id st\<rparr>, ?st)"
      by simp
    with first show ?thesis by blast
  qed
next
  assume "User_create st (trim u) = Inl DuplicateKey"
  then have "\<exists>x \<in> set (users st). u_username x = trim u"
    by (auto simp: User_create_def Let_def split: if_splits)
  from register_existing [OF assms this]
  show "\<exists>e. User_findOne st (trim u) = Some e \<and> e \<in> set (users st) \<and> u_username e = trim u
            \<and> register st (JStr u) = (Inr \<lparr>uv_username = u_username e, uv_id = u_id e\<rparr>, st)"
    by auto
qed

theorem register_idempotent_witness:
  "(\<exists>i st1. register store_empty (JStr '' alice '')
               = (Inr \<lparr>uv_username = ''alice'', uv_id = i\<rparr>, st1)
            \<and> register st1 (JStr '' alice '')
               = (Inr \<lparr>uv_username = ''alice'', uv_id = i\<rparr>, st1))
   \<and> User_create store_alice ''alice'' = Inl DuplicateKey
   \<and> (\<exists>e. User_findOne store_alice ''alice'' = Some e \<and> e \<in> set (users store_alice)
          \<and> u_username e = ''alice''
          \<and> register store_alice (JStr '' alice '')
              = (Inr \<lparr>uv_username = u_username e, uv_id = u_id e\<rparr>, store_alice))"
proof -
  have ne: "trim '' alice '' \<noteq> []" by (simp add: trim_alice)
  have dup: "User_create store_alice ''alice'' = Inl DuplicateKey"
    by (simp add: User_create_def store_alice_def)
  from register_idempotent [OF ne, of store_empty] register_idempotent [OF ne, of store_alice] dup
  show ?thesis by (simp add: trim_alice)
qed

section \<open>Unknown users\<close>

text \<open>
  C4. For a user identifier that resolves to no stored user, logging an exercise and
  reading the log both answer 404 \<open>user not found\<close>, whatever the other fields are;
  the check comes before the validation of description and duration, and the store
  is left as it was, so no exercise is created.
\<close>

theorem unknown_user_not_found:
  assumes "User_findById st userId = None"
  shows "logExercise E st userId description duration date
           = (Inl (NotFoundError ''user not found''), st)
         \<and> getLogs E st userId from to limit = Inl (NotFoundError ''user not found'')"
  using assms by (simp add: logExercise_def getLogs_def)

theorem unknown_user_not_found_witness:
  "User_findById store_alice 7 = None
   \<and> logExercise env_utc store_alice 7 JUndefined (JStr ''abc'') (JStr ''2023-05-01'')
       = (Inl (NotFoundError ''user not found''), store_alice)
   \<and> getLogs env_utc store_alice 7 None None (Some ''2'') = Inl (NotFoundError ''user not found'')"
proof -
  have h: "User_findById store_alice 7 = None"
    by (simp add: User_findById_def store_alice_def)
  from unknown_user_not_found [OF h] h show ?thesis by simp
qed

section \<open>Logging an exercise\<close>


lemma findById_Some:
  "User_findById st i = Some u \<Longrightarrow> u \<in> set (users st) \<and> u_id u = i"
  by (auto simp: User_findById_def find_Some_iff)

lemma logExercise_success:
  assumes "User_findById st userId = Some user" and "s \<noteq> []"
      and "truthy (JNum (js_Number duration))"
  shows "logExercise E st userId (JStr s) duration date =
           (Inr \<lparr>ev_id = u_id user, ev_username = u_username user,
                 ev_date = toFCCDateString E (resolve_date E date),
                 ev_duration = js_Number duration, ev_description = trim s\<rparr>,
            st\<lparr>exercises := exercises st @
                  [\<lparr>e_id = next_id st, e_userId = u_id user, e_description = trim s,
                    e_duration = js_Number duration, e_date = resolve_date E date\<rparr>],
               next_id := Suc (next_id st)\<rparr>)"
  using assms
  by (simp add: logExercise_def Exercise_create_def Let_def)

lemma logExercise_invalid:
  assumes "User_findById st userId = Some user"
      and "\<not> truthy description \<or> \<not> truthy (JNum (js_Number duration))"
  shows "logExercise E st userId description duration date =
           (Inl (ValidationError ''description and duration are required''), st)"
  using assms by (auto simp: logExercise_def Let_def)

lemma logExercise_trim_throws:
  assumes "User_findById st userId = Some user"
      and "truthy description" and "\<forall>s. description \<noteq> JStr s"
      and "truthy (JNum (js_Number duration))"
  shows "logExercise E st userId description duration date
           = (Inl (ServerError ''server error''), st)"
  using assms by (cases description) (simp_all add: logExercise_def Let_def)

lemma findById_alice: "User_findById store_alice 0 = Some \<lparr>u_id = 0, u_username = ''alice''\<rparr>"
  by (simp add: User_findById_def store_alice_def)

lemma Number_30: "StringToNumber ''30'' = Fin 30"
  by code_simp




lemma trim_run: "trim ''run'' = ''run''"
  by (simp add: trim_def is_ws_def)




text \<open>
  C10. A description that is truthy and not a string (a JSON number, or \<open>true\<close>) passes
  the validation when the duration does, and then \<^verbatim>\<open>description.trim()\<close> throws: the
  handler answers 500 \<open>server error\<close>, not 400, and stores nothing.
\<close>

theorem logExercise_nonstring_description:
  assumes "User_findById st userId = Some user"
      and "truthy description" and "\<forall>s. description \<noteq> JStr s"
      and "truthy (JNum (js_Number duration))"
  shows "logExercise E st userId description duration date
           = (Inl (ServerError ''server error''), st)"
  using assms by (rule logExercise_trim_throws)

theorem logExercise_nonstring_description_witness:
  "truthy (JNum (Fin 7)) \<and> truthy (JNum (js_Number (JStr ''30'')))
   \<and> logExercise env_utc store_alice 0 (JNum (Fin 7)) (JStr ''30'') JUndefined
       = (Inl (ServerError ''server error''), store_alice)"
proof -
  have a: "truthy (JNum (Fin 7))" by simp
  have b: "\<forall>s. JNum (Fin 7) \<noteq> JStr s" by simp
  have c: "truthy (JNum (js_Number (JStr ''30'')))" by (simp add: Number_30)
  from logExercise_nonstring_description [OF findById_alice a b c] a c
  show ?thesis by simp
qed


lemma resolve_date_string:
  "resolve_date E (JStr ds) = (case Date_parse E ds of None \<Rightarrow> now E | Some t \<Rightarrow> t)"
  by (simp add: resolve_date_def Date_parse_def)





lemma Date_parse_2023_05_01: "Date_parse E ''2023-05-01'' = Some 1682899200000"
  by code_simp

lemma Date_parse_garbage_utc: "Date_parse env_utc ''next tuesday'' = None"
  by code_simp




section \<open>The identifier in the answers\<close>

lemma logExercise_Inr:
  assumes "logExercise E st userId description duration date = (Inr v, st')"
  shows "\<exists>user s. User_findById st userId = Some user \<and> description = JStr s \<and> s \<noteq> []
                 \<and> truthy (JNum (js_Number duration))"
proof (cases "User_findById st userId")
  case None
  with assms show ?thesis by (simp add: logExercise_def)
next
  case (Some user)
  show ?thesis
  proof (cases "\<not> truthy description \<or> \<not> truthy (JNum (js_Number duration))")
    case True
    from logExercise_invalid [OF Some True] assms show ?thesis by simp
  next
    case False
    then have t: "truthy description" "truthy (JNum (js_Number duration))" by auto
    show ?thesis
    proof (cases "\<exists>s. description = JStr s")
      case True
      then obtain s where d: "description = JStr s" by blast
      with t(1) have "s \<noteq> []" by simp
      with d t(2) Some show ?thesis by (intro exI [of _ user] exI [of _ s]) simp
    next
      case False
      then have "\<forall>s. description \<noteq> JStr s" by simp
      from logExercise_trim_throws [OF Some t(1) this t(2)] assms
      show ?thesis by simp
    qed
  qed
qed

text \<open>
  C7. In every successful answer to logging an exercise and to reading the log, the
  identifier is the user's, the one of the request. The exercise view is the user's
  identifier and name, the formatted date, the duration and the description of the
  exercise stored; where the identifiers of the stored users are below the next one
  the store generates, the identifier in the view is not the exercise's. The log view
  carries the user's name and as its count the length of its log.
\<close>

theorem views_echo_user_id:
  "(logExercise E st userId description duration date = (Inr v, st') \<longrightarrow>
      (\<exists>user ex. User_findById st userId = Some user \<and> u_id user = userId
         \<and> exercises st' = exercises st @ [ex]
         \<and> v = \<lparr>ev_id = userId, ev_username = u_username user,
                 ev_date = toFCCDateString E (e_date ex), ev_duration = e_duration ex,
                 ev_description = e_description ex\<rparr>
         \<and> ((\<forall>u \<in> set (users st). u_id u < next_id st) \<longrightarrow> e_id ex \<noteq> ev_id v)))
   \<and> (getLogs E st userId from to limit = Inr lv \<longrightarrow>
        (\<exists>user. User_findById st userId = Some user \<and> u_id user = userId
           \<and> lv_id lv = userId \<and> lv_username lv = u_username user
           \<and> lv_count lv = length (lv_log lv)))"
proof (intro conjI impI)
  assume r: "logExercise E st userId description duration date = (Inr v, st')"
  from logExercise_Inr [OF r] obtain user s where
    u: "User_findById st userId = Some user" and d: "description = JStr s" and ne: "s \<noteq> []"
    and ok: "truthy (JNum (js_Number duration))" by blast
  from findById_Some [OF u] have mem: "user \<in> set (users st)" and uid: "u_id user = userId"
    by auto
  let ?ex = "\<lparr>e_id = next_id st, e_userId = u_id user, e_description = trim s,
              e_duration = js_Number duration, e_date = resolve_date E date\<rparr>"
  from logExercise_success [OF u ne ok, of E date] r d
  have v: "v = \<lparr>ev_id = u_id user, ev_username = u_username user,
                 ev_date = toFCCDateString E (resolve_date E date),
                 ev_duration = js_Number duration, ev_description = trim s\<rparr>"
    and st': "st' = st\<lparr>exercises := exercises st @ [?ex], next_id := Suc (next_id st)\<rparr>"
    by simp_all
  have "(\<forall>u \<in> set (users st). u_id u < next_id st) \<longrightarrow> e_id ?ex \<noteq> ev_id v"
    using mem v by auto
  moreover have "exercises st' = exercises st @ [?ex]" using st' by simp
  moreover have "v = \<lparr>ev_id = userId, ev_username = u_username user,
                 ev_date = toFCCDateString E (e_date ?ex), ev_duration = e_duration ?ex,
                 ev_description = e_description ?ex\<rparr>"
    using v uid by simp
  ultimately show "\<exists>user ex. User_findById st userId = Some user \<and> u_id user = userId
         \<and> exercises st' = exercises st @ [ex]
         \<and> v = \<lparr>ev_id = userId, ev_username = u_username user,
                 ev_date = toFCCDateString E (e_date ex), ev_duration = e_duration ex,
                 ev_description = e_description ex\<rparr>
         \<and> ((\<forall>u \<in> set (users st). u_id u < next_id st) \<longrightarrow> e_id ex \<noteq> ev_id v)"
    using u uid by (intro exI [of _ user] exI [of _ ?ex]) simp
next
  assume r: "getLogs E st userId from to limit = Inr lv"
  then obtain user where u: "User_findById st userId = Some user"
    by (cases "User_findById st userId") (auto simp: getLogs_def)
  from findById_Some [OF u] have uid: "u_id user = userId" by simp
  from r u have "lv_id lv = u_id user \<and> lv_username lv = u_username user
                 \<and> lv_count lv = length (lv_log lv)"
    by (auto simp: getLogs_def Let_def)
  with u uid show "\<exists>user. User_findById st userId = Some user \<and> u_id user = userId
           \<and> lv_id lv = userId \<and> lv_username lv = u_username user
           \<and> lv_count lv = length (lv_log lv)"
    by auto
qed

lemma toFCCDateString_utc_2023_05_01:
  "toFCCDateString env_utc 1682899200000 = ''Mon May 01 2023''"
  by code_simp

lemma logExercise_run:
  "logExercise env_utc store_alice 0 (JStr ''run'') (JStr ''30'') (JStr ''2023-05-01'')
     = (Inr \<lparr>ev_id = 0, ev_username = ''alice'', ev_date = ''Mon May 01 2023'',
              ev_duration = Fin 30, ev_description = ''run''\<rparr>, store_run)"
proof -
  have ne: "''run'' \<noteq> []" by simp
  have ok: "truthy (JNum (js_Number (JStr ''30'')))" by (simp add: Number_30)
  show ?thesis
    unfolding logExercise_success [OF findById_alice ne ok]
    by (simp add: Number_30 trim_run resolve_date_string Date_parse_2023_05_01
                  toFCCDateString_utc_2023_05_01 store_alice_def store_run_def)
qed

lemma getLogs_run:
  "getLogs env_utc store_run 0 None None None
     = Inr \<lparr>lv_username = ''alice'', lv_count = 1, lv_id = 0,
            lv_log = [\<lparr>le_description = ''run'', le_duration = Fin 30,
                        le_date = ''Mon May 01 2023''\<rparr>]\<rparr>"
  by code_simp

theorem views_echo_user_id_witness:
  "logExercise env_utc store_alice 0 (JStr ''run'') (JStr ''30'') (JStr ''2023-05-01'')
     = (Inr \<lparr>ev_id = 0, ev_username = ''alice'', ev_date = ''Mon May 01 2023'',
              ev_duration = Fin 30, ev_description = ''run''\<rparr>, store_run)
   \<and> (\<exists>ex. exercises store_run = exercises store_alice @ [ex] \<and> e_id ex = 1)
   \<and> getLogs env_utc store_run 0 None None None
     = Inr \<lparr>lv_username = ''alice'', lv_count = 1, lv_id = 0,
            lv_log = [\<lparr>le_description = ''run'', le_duration = Fin 30,
                        le_date = ''Mon May 01 2023''\<rparr>]\<rparr>
   \<and> User_findById store_run 0 = Some \<lparr>u_id = 0, u_username = ''alice''\<rparr>"
proof -
  from views_echo_user_id [of env_utc store_alice 0 "JStr ''run''" "JStr ''30''"
      "JStr ''2023-05-01''" _ store_run] logExercise_run
  have a: "\<exists>ex. exercises store_run = exercises store_alice @ [ex] \<and> e_id ex = 1"
    by (auto simp: store_run_def store_alice_def)
  from views_echo_user_id [of env_utc store_run 0 _ _ _ _ _ None None None] getLogs_run
  have b: "User_findById store_run 0 = Some \<lparr>u_id = 0, u_username = ''alice''\<rparr>"
    by (auto simp: store_run_def User_findById_def)
  from a b logExercise_run getLogs_run show ?thesis by simp
qed

section \<open>Reading the log\<close>

lemma Date_parse_empty: "Date_parse E [] = None"
  by (simp add: Date_parse_def)

lemma date_bound_eq:
  "date_bound E x = (case x of None \<Rightarrow> None | Some s \<Rightarrow> Date_parse E s)"
  by (cases x) (auto simp: date_bound_def truthy_query_def Date_parse_empty)

lemma date_bound_None: "\<not> truthy_query x \<Longrightarrow> date_bound E x = None"
  by (simp add: date_bound_def)

lemma matches_build_query:
  "matches (build_query E user from to) e \<longleftrightarrow>
     e_userId e = u_id user \<and> spec_date_filter E from to e"
proof (cases "truthy_query from \<or> truthy_query to")
  case True
  then show ?thesis
    by (auto simp: matches_def build_query_def Let_def date_bound_eq spec_date_filter_def
             split: option.splits)
next
  case False
  then have "date_bound E from = None" "date_bound E to = None"
    by (simp_all add: date_bound_None)
  then have "spec_date_filter E from to e"
    by (auto simp: date_bound_eq spec_date_filter_def split: option.splits)
  with False show ?thesis
    by (simp add: matches_def build_query_def)
qed

lemma parse_limit_cases:
  "parse_limit limit =
     (case parseInt10 limit of
        Fin n \<Rightarrow> if 1 \<le> n then Some (Fin n) else None
      | PInf \<Rightarrow> Some PInf
      | _ \<Rightarrow> None)"
  by (cases "parseInt10 limit") (auto simp: parse_limit_def Let_def)

lemma apply_parse_limit:
  "apply_limit (parse_limit limit) xs =
     (case parseInt10 limit of
        Fin n \<Rightarrow> if 1 \<le> n then take (nat \<lfloor>n\<rfloor>) xs else xs
      | _ \<Rightarrow> xs)"
  by (cases "parseInt10 limit") (auto simp: parse_limit_cases)

lemma parseInt10_absent: "parseInt10 None = NaN"
  by code_simp

lemma parseInt10_samples:
  "parseInt10 (Some ''2'') = Fin 2" "parseInt10 (Some ''abc'') = NaN"
  "parseInt10 (Some ''0'') = Fin 0" "parseInt10 (Some ''-3'') = Fin (- 3)"
  by code_simp+

lemma getLogs_exercises_eq:
  "getLogs_exercises E st user from to limit =
     apply_limit (parse_limit limit)
       (sort_key e_date
          (filter (\<lambda>e. e_userId e = u_id user \<and> spec_date_filter E from to e) (exercises st)))"
proof -
  have "matches (build_query E user from to)
          = (\<lambda>e. e_userId e = u_id user \<and> spec_date_filter E from to e)"
    by (rule ext) (rule matches_build_query)
  then show ?thesis by (simp add: getLogs_exercises_def Exercise_find_def)
qed

lemma getLogs_found:
  "User_findById st userId = Some user \<Longrightarrow>
   getLogs E st userId from to limit =
     Inr \<lparr>lv_username = u_username user,
          lv_count = length (getLogs_exercises E st user from to limit),
          lv_id = u_id user,
          lv_log = map (log_entry_of E) (getLogs_exercises E st user from to limit)\<rparr>"
  by (simp add: getLogs_def Let_def)

lemma sorted_apply_limit:
  "sorted (map f xs) \<Longrightarrow> sorted (map f (apply_limit l xs))"
proof (cases l)
  case None
  then show "sorted (map f xs) \<Longrightarrow> sorted (map f (apply_limit l xs))" by simp
next
  case (Some n)
  then show "sorted (map f xs) \<Longrightarrow> sorted (map f (apply_limit l xs))"
    by (cases n) (simp_all add: take_map [symmetric] sorted_wrt_take)
qed

lemma findById_five: "User_findById store_five 0 = Some \<lparr>u_id = 0, u_username = ''alice''\<rparr>"
  by (simp add: User_findById_def store_five_def)

lemma getLogs_five_limit_2:
  "getLogs env_utc store_five 0 None None (Some ''2'')
     = Inr \<lparr>lv_username = ''alice'', lv_count = 2, lv_id = 0,
            lv_log = [\<lparr>le_description = ''a'', le_duration = Fin 10,
                        le_date = ''Mon May 01 2023''\<rparr>,
                      \<lparr>le_description = ''b'', le_duration = Fin 20,
                        le_date = ''Tue May 02 2023''\<rparr>]\<rparr>"
  by code_simp

lemma Date_parse_2023_05_02: "Date_parse E ''2023-05-02'' = Some 1682985600000"
  by code_simp

lemma getLogs_exercises_five_range:
  "map e_id (getLogs_exercises env_utc store_five \<lparr>u_id = 0, u_username = ''alice''\<rparr>
               (Some ''2023-05-02'') (Some ''next tuesday'') None) = [6, 2, 7, 5]"
  by code_simp

text \<open>
  C1. For an existing user and any \<open>from\<close>, \<open>to\<close> and \<open>limit\<close>, the log is that user's
  exercises that pass the date filter, each once, in ascending order of date; when
  \<^verbatim>\<open>parseInt(limit)\<close> is a number from 1 on, the log is the first that many entries of
  that sequence, and otherwise (\<open>NaN\<close> for an absent or non-numeric limit, zero, a
  negative number) all of it; the count is the length of the log returned.
\<close>

theorem getLogs_sorted_filtered_limited:
  assumes "User_findById st userId = Some user"
  shows "\<exists>full exs.
           mset full = mset (filter (\<lambda>e. e_userId e = u_id user \<and> spec_date_filter E from to e)
                               (exercises st))
         \<and> sorted (map e_date full)
         \<and> exs = (case parseInt10 limit of
                     Fin n \<Rightarrow> if 1 \<le> n then take (nat \<lfloor>n\<rfloor>) full else full
                   | _ \<Rightarrow> full)
         \<and> sorted (map e_date exs)
         \<and> getLogs E st userId from to limit
             = Inr \<lparr>lv_username = u_username user, lv_count = length exs, lv_id = u_id user,
                    lv_log = map (log_entry_of E) exs\<rparr>"
proof -
  let ?cands = "filter (\<lambda>e. e_userId e = u_id user \<and> spec_date_filter E from to e) (exercises st)"
  let ?full = "sort_key e_date ?cands"
  let ?exs = "getLogs_exercises E st user from to limit"
  have 1: "mset ?full = mset ?cands" by simp
  have 2: "sorted (map e_date ?full)" by (rule sorted_sort_key)
  have 3: "?exs = (case parseInt10 limit of
                     Fin n \<Rightarrow> if 1 \<le> n then take (nat \<lfloor>n\<rfloor>) ?full else ?full
                   | _ \<Rightarrow> ?full)"
    by (simp only: getLogs_exercises_eq apply_parse_limit)
  have 4: "sorted (map e_date ?exs)"
    unfolding getLogs_exercises_eq by (rule sorted_apply_limit [OF 2])
  from 1 2 3 4 getLogs_found [OF assms, of E "from" to limit] show ?thesis by blast
qed

theorem getLogs_sorted_filtered_limited_witness:
  "User_findById store_five 0 = Some \<lparr>u_id = 0, u_username = ''alice''\<rparr>
   \<and> (\<exists>full exs.
         mset full = mset (filter (\<lambda>e. e_userId e = 0 \<and> spec_date_filter env_utc None None e)
                             (exercises store_five))
       \<and> sorted (map e_date full)
       \<and> exs = (case parseInt10 (Some ''2'') of
                   Fin n \<Rightarrow> if 1 \<le> n then take (nat \<lfloor>n\<rfloor>) full else full
                 | _ \<Rightarrow> full)
       \<and> sorted (map e_date exs)
       \<and> getLogs env_utc store_five 0 None None (Some ''2'')
           = Inr \<lparr>lv_username = ''alice'', lv_count = length exs, lv_id = 0,
                  lv_log = map (log_entry_of env_utc) exs\<rparr>)
   \<and> getLogs env_utc store_five 0 None None (Some ''2'')
       = Inr \<lparr>lv_username = ''alice'', lv_count = 2, lv_id = 0,
              lv_log = [\<lparr>le_description = ''a'', le_duration = Fin 10,
                          le_date = ''Mon May 01 2023''\<rparr>,
                        \<lparr>le_description = ''b'', le_duration = Fin 20,
                          le_date = ''Tue May 02 2023''\<rparr>]\<rparr>
   \<and> parseInt10 (Some ''2'') = Fin 2 \<and> parseInt10 None = NaN
   \<and> parseInt10 (Some ''abc'') = NaN \<and> parseInt10 (Some ''0'') = Fin 0
   \<and> parseInt10 (Some ''-3'') = Fin (- 3)"
  using getLogs_sorted_filtered_limited [OF findById_five, of env_utc None None "Some ''2''"]
        findById_five getLogs_five_limit_2 parseInt10_absent parseInt10_samples
  by simp

text \<open>
  C5. For an existing user the call succeeds whatever \<open>from\<close> and \<open>to\<close> are, and the
  log is cut by the limit from a sequence that holds exactly the user's exercises whose
  date is at or after \<open>from\<close>, when \<open>from\<close> parses to a valid date, and at or before
  \<open>to\<close>, when \<open>to\<close> parses to a valid date. A bound that is absent or does not parse
  constrains nothing, so with neither bound there is no date filter.
\<close>

theorem getLogs_date_filter:
  assumes "User_findById st userId = Some user"
  shows "\<exists>full exs.
           getLogs E st userId from to limit
             = Inr \<lparr>lv_username = u_username user, lv_count = length exs,
                    lv_id = u_id user, lv_log = map (log_entry_of E) exs\<rparr>
         \<and> exs = (case parseInt10 limit of
                     Fin n \<Rightarrow> if 1 \<le> n then take (nat \<lfloor>n\<rfloor>) full else full
                   | _ \<Rightarrow> full)
         \<and> (\<forall>e. e \<in> set full \<longleftrightarrow>
                  e \<in> set (exercises st) \<and> e_userId e = u_id user
                  \<and> (\<forall>s f. from = Some s \<and> Date_parse E s = Some f \<longrightarrow> f \<le> e_date e)
                  \<and> (\<forall>s t. to = Some s \<and> Date_parse E s = Some t \<longrightarrow> e_date e \<le> t))"
proof -
  let ?full = "sort_key e_date
     (filter (\<lambda>e. e_userId e = u_id user \<and> spec_date_filter E from to e) (exercises st))"
  let ?exs = "getLogs_exercises E st user from to limit"
  have range: "spec_date_filter E from to e \<longleftrightarrow>
                 (\<forall>s f. from = Some s \<and> Date_parse E s = Some f \<longrightarrow> f \<le> e_date e)
                 \<and> (\<forall>s t. to = Some s \<and> Date_parse E s = Some t \<longrightarrow> e_date e \<le> t)" for e
    by (auto simp: spec_date_filter_def split: option.splits)
  have 1: "?exs = (case parseInt10 limit of
                     Fin n \<Rightarrow> if 1 \<le> n then take (nat \<lfloor>n\<rfloor>) ?full else ?full
                   | _ \<Rightarrow> ?full)"
    by (simp only: getLogs_exercises_eq apply_parse_limit)
  have "set ?full = {e \<in> set (exercises st). e_userId e = u_id user \<and> spec_date_filter E from to e}"
    by simp
  then have 2: "\<forall>e. e \<in> set ?full \<longleftrightarrow>
                  e \<in> set (exercises st) \<and> e_userId e = u_id user
                  \<and> (\<forall>s f. from = Some s \<and> Date_parse E s = Some f \<longrightarrow> f \<le> e_date e)
                  \<and> (\<forall>s t. to = Some s \<and> Date_parse E s = Some t \<longrightarrow> e_date e \<le> t)"
    using range by simp
  from 1 2 getLogs_found [OF assms, of E "from" to limit] show ?thesis by blast
qed

theorem getLogs_date_filter_witness:
  "User_findById store_five 0 = Some \<lparr>u_id = 0, u_username = ''alice''\<rparr>
   \<and> (\<exists>full exs.
         getLogs env_utc store_five 0 (Some ''2023-05-02'') (Some ''next tuesday'') None
           = Inr \<lparr>lv_username = ''alice'', lv_count = length exs,
                  lv_id = 0, lv_log = map (log_entry_of env_utc) exs\<rparr>
       \<and> exs = (case parseInt10 None of
                   Fin n \<Rightarrow> if 1 \<le> n then take (nat \<lfloor>n\<rfloor>) full else full
                 | _ \<Rightarrow> full)
       \<and> (\<forall>e. e \<in> set full \<longleftrightarrow>
                e \<in> set (exercises store_five) \<and> e_userId e = 0
                \<and> (\<forall>s f. Some ''2023-05-02'' = Some s \<and> Date_parse env_utc s = Some f
                        \<longrightarrow> f \<le> e_date e)
                \<and> (\<forall>s t. Some ''next tuesday'' = Some s \<and> Date_parse env_utc s = Some t
                        \<longrightarrow> e_date e \<le> t)))
   \<and> Date_parse env_utc ''2023-05-02'' = Some 1682985600000
   \<and> Date_parse env_utc ''next tuesday'' = None
   \<and> map e_id (getLogs_exercises env_utc store_five \<lparr>u_id = 0, u_username = ''alice''\<rparr>
                  (Some ''2023-05-02'') (Some ''next tuesday'') None) = [6, 2, 7, 5]"
  using getLogs_date_filter [OF findById_five, of env_utc "Some ''2023-05-02''"
          "Some ''next tuesday''" None]
        findById_five getLogs_exercises_five_range Date_parse_2023_05_02 Date_parse_garbage_utc
  by simp

section \<open>The date string\<close>

lemma int_div_bounds:
  fixes a b :: int
  assumes "0 < b"
  shows "b * (a div b) \<le> a \<and> a < b * (a div b) + b"
proof -
  have "a = b * (a div b) + a mod b" by simp
  moreover have "0 \<le> a mod b" "a mod b < b" using assms by simp_all
  ultimately show ?thesis by linarith
qed

lemma century_rest_bounds:
  fixes r :: int
  assumes "0 \<le> r" "r < 146097"
  shows "0 \<le> r - 36524 * min 3 (r div 36524) \<and> r - 36524 * min 3 (r div 36524) \<le> 36524"
proof -
  define q where "q = r div 36524"
  have "36524 * q \<le> r \<and> r < 36524 * q + 36524"
    unfolding q_def by (rule int_div_bounds) simp
  with assms show ?thesis unfolding q_def [symmetric] min_def by (cases "3 \<le> q") auto
qed

lemma year_rest_bounds:
  fixes r :: int
  assumes "0 \<le> r" "r < 1461"
  shows "0 \<le> r - 365 * min 3 (r div 365) \<and> r - 365 * min 3 (r div 365) \<le> 365"
proof -
  define q where "q = r div 365"
  have "365 * q \<le> r \<and> r < 365 * q + 365"
    unfolding q_def by (rule int_div_bounds) simp
  with assms show ?thesis unfolding q_def [symmetric] min_def by (cases "3 \<le> q") auto
qed

lemma month_day_bounds:
  fixes doy :: int
  assumes "0 \<le> doy" "doy \<le> 365"
  shows "0 \<le> (5 * doy + 2) div 153 \<and> (5 * doy + 2) div 153 \<le> 11
         \<and> 1 \<le> doy - (153 * ((5 * doy + 2) div 153) + 2) div 5 + 1
         \<and> doy - (153 * ((5 * doy + 2) div 153) + 2) div 5 + 1 \<le> 31"
proof -
  define mp where "mp = (5 * doy + 2) div 153"
  define k where "k = (153 * mp + 2) div 5"
  have 1: "153 * mp \<le> 5 * doy + 2 \<and> 5 * doy + 2 < 153 * mp + 153"
    unfolding mp_def by (rule int_div_bounds) simp
  have 2: "5 * k \<le> 153 * mp + 2 \<and> 153 * mp + 2 < 5 * k + 5"
    unfolding k_def by (rule int_div_bounds) simp
  from 1 2 assms have "0 \<le> mp \<and> mp \<le> 11 \<and> 1 \<le> doy - k + 1 \<and> doy - k + 1 \<le> 31"
    by linarith
  then show ?thesis unfolding k_def mp_def .
qed

lemma civil_from_day_bounds:
  assumes "civil_from_day day = (y, m, d)"
  shows "1 \<le> m \<and> m \<le> 12 \<and> 1 \<le> d \<and> d \<le> 31"
proof -
  define r400 where "r400 = (day + 719468) mod 146097"
  define r100 where "r100 = r400 - 36524 * min 3 (r400 div 36524)"
  define r4 where "r4 = r100 mod 1461"
  define doy where "doy = r4 - 365 * min 3 (r4 div 365)"
  define mp where "mp = (5 * doy + 2) div 153"
  have "0 \<le> r400" "r400 < 146097" by (simp_all add: r400_def)
  then have "0 \<le> r100" by (simp add: r100_def century_rest_bounds)
  have "0 \<le> r4" "r4 < 1461" by (simp_all add: r4_def)
  then have "0 \<le> doy" "doy \<le> 365" by (simp_all add: doy_def year_rest_bounds)
  from month_day_bounds [OF this]
  have b: "0 \<le> mp" "mp \<le> 11" "1 \<le> doy - (153 * mp + 2) div 5 + 1"
    "doy - (153 * mp + 2) div 5 + 1 \<le> 31"
    by (simp_all add: mp_def)
  from assms have "(if mp < 10 then mp + 3 else mp - 9) = m
                   \<and> doy - (153 * mp + 2) div 5 + 1 = d"
    unfolding civil_from_day_def Let_def mp_def doy_def r4_def r100_def r400_def prod.inject
    by (elim conjE, intro conjI) assumption+
  with b show ?thesis by (auto split: if_splits)
qed


lemma of_char_digit_char:
  "0 \<le> n \<Longrightarrow> n < 10 \<Longrightarrow> (of_char (digit_char n) :: int) = 48 + n"
  by (simp add: digit_char_def)

lemma is_digit_digit_char: "0 \<le> n \<Longrightarrow> n < 10 \<Longrightarrow> is_digit (digit_char n)"
  by (simp add: is_digit_def of_char_digit_char)

lemma digit_val_digit_char: "0 \<le> n \<Longrightarrow> n < 10 \<Longrightarrow> digit_val (digit_char n) = n"
  by (simp add: digit_val_def of_char_digit_char)

lemma dec_string_digits: "0 \<le> n \<Longrightarrow> list_all is_digit (dec_string n)"
proof (induction n rule: dec_string.induct)
  case (1 n)
  show ?case
  proof (cases "n < 10")
    case True
    with "1.prems" show ?thesis by (simp add: dec_string.simps [of n] is_digit_digit_char)
  next
    case False
    with 1 show ?thesis by (simp add: dec_string.simps [of n] is_digit_digit_char)
  qed
qed

lemma digits_val_snoc: "digits_val (s @ [c]) = 10 * digits_val s + digit_val c"
  by (simp add: digits_val_def)

lemma digits_val_dec_string: "0 \<le> n \<Longrightarrow> digits_val (dec_string n) = n"
proof (induction n rule: dec_string.induct)
  case (1 n)
  show ?case
  proof (cases "n < 10")
    case True
    with "1.prems" show ?thesis
      by (simp add: dec_string.simps [of n] digits_val_def digit_val_digit_char)
  next
    case False
    with 1 have "digits_val (dec_string (n div 10)) = n div 10" by simp
    with False show ?thesis
      by (simp add: dec_string.simps [of n] digits_val_snoc digit_val_digit_char)
  qed
qed

lemma length_dec_string: "n < 10 ^ k \<Longrightarrow> 0 < k \<Longrightarrow> length (dec_string n) \<le> k"
proof (induction n arbitrary: k rule: dec_string.induct)
  case (1 n)
  show ?case
  proof (cases "n < 10")
    case True
    with 1 show ?thesis by (simp add: dec_string.simps [of n])
  next
    case False
    with "1.prems" obtain j where k: "k = Suc j" by (cases k) auto
    with False "1.prems" have "0 < j" by (cases j) auto
    moreover have "n div 10 < 10 ^ j"
    proof -
      from "1.prems" k have "n < 10 * 10 ^ j" by simp
      moreover have "10 * (n div 10) \<le> n" using int_div_bounds [of 10 n] by simp
      ultimately show ?thesis by linarith
    qed
    ultimately have "length (dec_string (n div 10)) \<le> j" using "1.IH" False by simp
    with False k show ?thesis by (simp add: dec_string.simps [of n])
  qed
qed

lemma digits_val_zeros: "digits_val (replicate k CHR ''0'' @ s) = digits_val s"
proof -
  have "foldl (\<lambda>n c. 10 * n + digit_val c) 0 (replicate k CHR ''0'') = 0"
    by (induction k) (simp_all add: digit_val_def)
  then show ?thesis by (simp add: digits_val_def)
qed

lemma is_digit_zero: "is_digit CHR ''0''"
  by (simp add: is_digit_def)

lemma padded_decimal:
  assumes "0 \<le> n" and "n < 10 ^ k" and "0 < k"
  shows "length (ToZeroPaddedDecimalString n k) = k
         \<and> list_all is_digit (ToZeroPaddedDecimalString n k)
         \<and> digits_val (ToZeroPaddedDecimalString n k) = n"
proof -
  from length_dec_string [OF assms(2,3)] have "length (dec_string n) \<le> k" .
  then have "length (ToZeroPaddedDecimalString n k) = k"
    by (simp add: ToZeroPaddedDecimalString_def)
  moreover have "list_all is_digit (replicate j CHR ''0'')" for j
    by (induction j) (simp_all add: is_digit_zero)
  then have "list_all is_digit (ToZeroPaddedDecimalString n k)"
    by (simp add: ToZeroPaddedDecimalString_def dec_string_digits [OF assms(1)])
  moreover have "digits_val (ToZeroPaddedDecimalString n k) = n"
    by (simp add: ToZeroPaddedDecimalString_def digits_val_zeros digits_val_dec_string [OF assms(1)])
  ultimately show ?thesis by simp
qed

lemma weekday_name_mem: "weekday_name (WeekDay day) \<in> set weekday_names"
proof -
  have "0 \<le> WeekDay day" "WeekDay day < 7" by (simp_all add: WeekDay_def)
  then have "nat (WeekDay day) < length weekday_names" by (simp add: weekday_names_def)
  then show ?thesis unfolding weekday_name_def by (rule nth_mem)
qed

lemma month_name_mem: "1 \<le> m \<Longrightarrow> m \<le> 12 \<Longrightarrow> month_name m \<in> set month_names"
proof -
  assume "1 \<le> m" "m \<le> 12"
  then have "nat (m - 1) < length month_names" by (simp add: month_names_def)
  then show ?thesis unfolding month_name_def by (rule nth_mem)
qed

lemma toDateString_shape:
  assumes c: "civil_from_day ((tv + LocalTZA E tv True) div msPerDay) = (y, m, d)"
      and y: "0 \<le> y" "y \<le> 9999"
  shows "\<exists>w mo dd yyyy.
           toFCCDateString E tv = w @ '' '' @ mo @ '' '' @ dd @ '' '' @ yyyy
         \<and> w = weekday_name (WeekDay ((tv + LocalTZA E tv True) div msPerDay))
         \<and> w \<in> set weekday_names
         \<and> mo = month_name m \<and> mo \<in> set month_names
         \<and> length dd = 2 \<and> list_all is_digit dd \<and> digits_val dd = d
         \<and> length yyyy = 4 \<and> list_all is_digit yyyy \<and> digits_val yyyy = y"
proof -
  let ?day = "(tv + LocalTZA E tv True) div msPerDay"
  from civil_from_day_bounds [OF c] have m: "1 \<le> m" "m \<le> 12" and d: "1 \<le> d" "d \<le> 31"
    by auto
  have "0 \<le> d" "d < 10 ^ 2" using d by simp_all
  from padded_decimal [OF this]
  have dd: "length (ToZeroPaddedDecimalString d 2) = 2"
    "list_all is_digit (ToZeroPaddedDecimalString d 2)"
    "digits_val (ToZeroPaddedDecimalString d 2) = d" by simp_all
  have "0 \<le> y" "y < 10 ^ 4" using y by simp_all
  from padded_decimal [OF this]
  have yy: "length (ToZeroPaddedDecimalString y 4) = 4"
    "list_all is_digit (ToZeroPaddedDecimalString y 4)"
    "digits_val (ToZeroPaddedDecimalString y 4) = y" by simp_all
  have "toFCCDateString E tv =
          weekday_name (WeekDay ?day) @ '' '' @ month_name m @ '' ''
            @ ToZeroPaddedDecimalString d 2 @ '' ''
            @ ToZeroPaddedDecimalString y 4"
    using c y by (simp add: toFCCDateString_def toDateString_def Let_def)
  with dd yy weekday_name_mem [of ?day] month_name_mem [OF m] show ?thesis by blast
qed

lemma day_of_2023_05_01:
  assumes "0 \<le> off" "off < msPerDay"
  shows "(1682899200000 + off) div msPerDay = 19478"
proof -
  have "86400000 * ((1682899200000 + off) div 86400000) \<le> 1682899200000 + off
        \<and> 1682899200000 + off < 86400000 * ((1682899200000 + off) div 86400000) + 86400000"
    by (rule int_div_bounds) simp
  with assms show ?thesis unfolding msPerDay_def by linarith
qed

lemma civil_19478: "civil_from_day 19478 = (2023, 5, 1)"
  by code_simp

lemma date_string_19478:
  "weekday_name (WeekDay 19478) @ '' '' @ month_name 5 @ '' ''
     @ ToZeroPaddedDecimalString 1 2 @ '' '' @ ToZeroPaddedDecimalString \<bar>2023\<bar> 4
   = ''Mon May 01 2023''"
  by code_simp

lemma toFCCDateString_2023_05_01:
  assumes "0 \<le> LocalTZA E 1682899200000 True" "LocalTZA E 1682899200000 True < msPerDay"
  shows "toFCCDateString E 1682899200000 = ''Mon May 01 2023''"
  using date_string_19478
  by (simp add: toFCCDateString_def toDateString_def day_of_2023_05_01 [OF assms] civil_19478)

lemma toFCCDateString_west: "toFCCDateString env_west 1682899200000 = ''Sun Apr 30 2023''"
  by code_simp

lemma Date_parse_year_10000: "Date_parse E ''+010000-01-01'' = Some 253402300800000"
  by code_simp

lemma toFCCDateString_year_10000:
  "toFCCDateString env_utc 253402300800000 = ''Sat Jan 01 10000''"
  by code_simp

lemma civil_utc_2023_05_01:
  "civil_from_day ((1682899200000 + LocalTZA env_utc 1682899200000 True) div msPerDay)
     = (2023, 5, 1)"
  by code_simp

text \<open>
  C8, as the code has it. A date string is the LOCAL calendar day of the time value:
  for a local year from 0 to 9999 it is the weekday name of that day, the month name,
  the day of the month on two digits and the year on four, with single spaces between
  them. A date \<^verbatim>\<open>2023-05-01\<close> is midnight UTC, so logging an exercise with it
  answers \<open>Mon May 01 2023\<close> on a server whose local time is at or ahead of UTC (by
  less than a day) at that instant.
\<close>

theorem date_string_format:
  "(civil_from_day ((tv + LocalTZA E tv True) div msPerDay) = (y, m, d) \<and> 0 \<le> y \<and> y \<le> 9999
      \<longrightarrow> (\<exists>w mo dd yyyy.
             toFCCDateString E tv = w @ '' '' @ mo @ '' '' @ dd @ '' '' @ yyyy
           \<and> w = weekday_name (WeekDay ((tv + LocalTZA E tv True) div msPerDay))
           \<and> w \<in> set weekday_names
           \<and> mo = month_name m \<and> mo \<in> set month_names
           \<and> length dd = 2 \<and> list_all is_digit dd \<and> digits_val dd = d
           \<and> length yyyy = 4 \<and> list_all is_digit yyyy \<and> digits_val yyyy = y))
   \<and> (0 \<le> LocalTZA E 1682899200000 True \<and> LocalTZA E 1682899200000 True < msPerDay
        \<and> User_findById st userId = Some user \<and> description \<noteq> []
        \<and> truthy (JNum (js_Number duration))
      \<longrightarrow> (\<exists>st'. logExercise E st userId (JStr description) duration (JStr ''2023-05-01'')
                   = (Inr \<lparr>ev_id = u_id user, ev_username = u_username user,
                            ev_date = ''Mon May 01 2023'',
                            ev_duration = js_Number duration,
                            ev_description = trim description\<rparr>, st')))"
proof (intro conjI impI)
  assume "civil_from_day ((tv + LocalTZA E tv True) div msPerDay) = (y, m, d)
          \<and> 0 \<le> y \<and> y \<le> 9999"
  then show "\<exists>w mo dd yyyy.
             toFCCDateString E tv = w @ '' '' @ mo @ '' '' @ dd @ '' '' @ yyyy
           \<and> w = weekday_name (WeekDay ((tv + LocalTZA E tv True) div msPerDay))
           \<and> w \<in> set weekday_names
           \<and> mo = month_name m \<and> mo \<in> set month_names
           \<and> length dd = 2 \<and> list_all is_digit dd \<and> digits_val dd = d
           \<and> length yyyy = 4 \<and> list_all is_digit yyyy \<and> digits_val yyyy = y"
    using toDateString_shape [of tv E y m d] by blast
next
  assume a: "0 \<le> LocalTZA E 1682899200000 True \<and> LocalTZA E 1682899200000 True < msPerDay
        \<and> User_findById st userId = Some user \<and> description \<noteq> []
        \<and> truthy (JNum (js_Number duration))"
  then have tz: "0 \<le> LocalTZA E 1682899200000 True" "LocalTZA E 1682899200000 True < msPerDay"
    and u: "User_findById st userId = Some user" and ne: "description \<noteq> []"
    and ok: "truthy (JNum (js_Number duration))" by simp_all
  have "resolve_date E (JStr ''2023-05-01'') = 1682899200000"
    by (simp add: resolve_date_string Date_parse_2023_05_01)
  with logExercise_success [OF u ne ok, of E "JStr ''2023-05-01''"]
       toFCCDateString_2023_05_01 [OF tz]
  show "\<exists>st'. logExercise E st userId (JStr description) duration (JStr ''2023-05-01'')
                   = (Inr \<lparr>ev_id = u_id user, ev_username = u_username user,
                            ev_date = ''Mon May 01 2023'',
                            ev_duration = js_Number duration,
                            ev_description = trim description\<rparr>, st')"
    by simp
qed

theorem date_string_format_witness:
  "civil_from_day ((1682899200000 + LocalTZA env_utc 1682899200000 True) div msPerDay)
     = (2023, 5, 1)
   \<and> (\<exists>w mo dd yyyy.
         toFCCDateString env_utc 1682899200000 = w @ '' '' @ mo @ '' '' @ dd @ '' '' @ yyyy
       \<and> w = weekday_name
               (WeekDay ((1682899200000 + LocalTZA env_utc 1682899200000 True) div msPerDay))
       \<and> w \<in> set weekday_names \<and> mo = month_name 5 \<and> mo \<in> set month_names
       \<and> length dd = 2 \<and> list_all is_digit dd \<and> digits_val dd = 1
       \<and> length yyyy = 4 \<and> list_all is_digit yyyy \<and> digits_val yyyy = 2023)
   \<and> (\<exists>st'. logExercise env_utc store_alice 0 (JStr ''run'') (JStr ''30'') (JStr ''2023-05-01'')
               = (Inr \<lparr>ev_id = 0, ev_username = ''alice'', ev_date = ''Mon May 01 2023'',
                        ev_duration = Fin 30, ev_description = ''run''\<rparr>, st'))"
proof -
  have tz: "0 \<le> LocalTZA env_utc 1682899200000 True"
    "LocalTZA env_utc 1682899200000 True < msPerDay"
    by (simp_all add: env_utc_def msPerDay_def)
  have ok: "truthy (JNum (js_Number (JStr ''30'')))" by (simp add: Number_30)
  from date_string_format [of 1682899200000 env_utc 2023 5 1 store_alice 0
         "\<lparr>u_id = 0, u_username = ''alice''\<rparr>" "''run''" "JStr ''30''"]
       civil_utc_2023_05_01 tz findById_alice ok
  show ?thesis by (simp add: Number_30 trim_run)
qed

text \<open>
  The claim C8 as written fails on the code. Five hours west of UTC the date
  \<^verbatim>\<open>2023-05-01\<close> is answered as \<open>Sun Apr 30 2023\<close>, and the date
  \<^verbatim>\<open>+010000-01-01\<close> is answered with a year of five digits.
\<close>

theorem date_string_counterexample:
  "logExercise env_west store_alice 0 (JStr ''run'') (JStr ''30'') (JStr ''2023-05-01'')
     = (Inr \<lparr>ev_id = 0, ev_username = ''alice'', ev_date = ''Sun Apr 30 2023'',
              ev_duration = Fin 30, ev_description = ''run''\<rparr>, store_run)
   \<and> fst (logExercise env_utc store_alice 0 (JStr ''run'') (JStr ''30'') (JStr ''+010000-01-01''))
     = Inr \<lparr>ev_id = 0, ev_username = ''alice'', ev_date = ''Sat Jan 01 10000'',
            ev_duration = Fin 30, ev_description = ''run''\<rparr>"
proof -
  have ne: "''run'' \<noteq> []" by simp
  have ok: "truthy (JNum (js_Number (JStr ''30'')))" by (simp add: Number_30)
  have "logExercise env_west store_alice 0 (JStr ''run'') (JStr ''30'') (JStr ''2023-05-01'')
     = (Inr \<lparr>ev_id = 0, ev_username = ''alice'', ev_date = ''Sun Apr 30 2023'',
              ev_duration = Fin 30, ev_description = ''run''\<rparr>, store_run)"
    unfolding logExercise_success [OF findById_alice ne ok]
    by (simp add: Number_30 trim_run resolve_date_string Date_parse_2023_05_01
                  toFCCDateString_west store_alice_def store_run_def)
  moreover
  have "fst (logExercise env_utc store_alice 0 (JStr ''run'') (JStr ''30'') (JStr ''+010000-01-01''))
     = Inr \<lparr>ev_id = 0, ev_username = ''alice'', ev_date = ''Sat Jan 01 10000'',
            ev_duration = Fin 30, ev_description = ''run''\<rparr>"
    unfolding logExercise_success [OF findById_alice ne ok]
    by (simp add: Number_30 trim_run resolve_date_string Date_parse_year_10000
                  toFCCDateString_year_10000)
  ultimately show ?thesis by simp
qed

end
